theory Spec2Isabelle
  imports Main "HOL-Library.Sublist" "HOL-Library.Char_ord" "HOL-Library.List_Lexorder"
    "HOL-Library.Word"
begin

section \<open>JavaScript library functions used by the sources\<close>

text \<open>
  Error messages, selectors, attribute values, URLs and keys are byte strings
  (\<open>char list\<close>). \<open>str_includes s t\<close> is \<open>s.includes(t)\<close>: \<open>t\<close> occurs in \<open>s\<close> as a contiguous
  substring (case sensitive).
\<close>

fun str_includes :: "string \<Rightarrow> string \<Rightarrow> bool" where
  "str_includes [] t = (t = [])"
| "str_includes (c # s) t = (prefix t (c # s) \<or> str_includes s t)"

text \<open>\<open>xs.join(sep)\<close> on an array of strings.\<close>

fun join :: "'a list \<Rightarrow> 'a list list \<Rightarrow> 'a list" where
  "join sep [] = []"
| "join sep [x] = x"
| "join sep (x # y # ys) = x @ sep @ join sep (y # ys)"

text \<open>
  Text that is read from the document (the text content of an element, the title of the
  page) is a string of JavaScript: a list of UTF-16 code units, each a natural number
  below 65536. Its \<open>length\<close> is the number of code units. \<open>ascii s\<close> is the text
  with the characters of the literal \<open>s\<close>.
\<close>

type_synonym ustring = "nat list"

abbreviation ascii :: "string \<Rightarrow> ustring" where
  "ascii s \<equiv> map of_char s"

text \<open>
  \<open>s.trim()\<close> removes white space and line terminators from both ends: U+0009 to
  U+000D, U+0020, U+00A0, U+1680, U+2000 to U+200A, U+2028, U+2029, U+202F, U+205F,
  U+3000 and U+FEFF.
\<close>

definition isWhiteSpace :: "nat \<Rightarrow> bool" where
  "isWhiteSpace c =
     (c \<in> {0x0009, 0x000A, 0x000B, 0x000C, 0x000D, 0x0020, 0x00A0, 0x1680,
            0x2028, 0x2029, 0x202F, 0x205F, 0x3000, 0xFEFF}
      \<or> (0x2000 \<le> c \<and> c \<le> 0x200A))"

definition trim :: "ustring \<Rightarrow> ustring" where
  "trim s = rev (dropWhile isWhiteSpace (rev (dropWhile isWhiteSpace s)))"

text \<open>\<open>Math.ceil(a / 1000)\<close> on integral arguments.\<close>

definition ceil_div1000 :: "int \<Rightarrow> int" where
  "ceil_div1000 a = - ((- a) div 1000)"

section \<open>errors.ts\<close>

datatype ErrorType =
    VALIDATION_ERROR | RATE_LIMIT_ERROR | TIMEOUT_ERROR | SCRAPING_ERROR
  | NETWORK_ERROR | BROWSER_ERROR | INTERNAL_ERROR | NOT_FOUND_ERROR

text \<open>
  The class \<open>ScrapingError\<close>: its message, its kind (the field \<open>type\<close>, here
  \<open>errType\<close>), its status code and the optional details (\<open>None\<close> is \<open>undefined\<close>).
\<close>

record ScrapingError =
  message :: string
  errType :: ErrorType
  statusCode :: int
  details :: "(string \<times> string) list option"

text \<open>The constructor, with its defaults \<open>type = INTERNAL_ERROR\<close>, \<open>statusCode = 500\<close>.\<close>

definition new_ScrapingError ::
  "string \<Rightarrow> ErrorType option \<Rightarrow> int option \<Rightarrow> (string \<times> string) list option \<Rightarrow> ScrapingError" where
  "new_ScrapingError msg ty st det =
     \<lparr> message = msg,
       errType = (case ty of None \<Rightarrow> INTERNAL_ERROR | Some t \<Rightarrow> t),
       statusCode = (case st of None \<Rightarrow> 500 | Some c \<Rightarrow> c),
       details = det \<rparr>"

definition createValidationError :: "string \<Rightarrow> (string \<times> string) list option \<Rightarrow> ScrapingError" where
  "createValidationError msg det = new_ScrapingError msg (Some VALIDATION_ERROR) (Some 400) det"

definition createRateLimitError :: "string \<Rightarrow> (string \<times> string) list option \<Rightarrow> ScrapingError" where
  "createRateLimitError msg det = new_ScrapingError msg (Some RATE_LIMIT_ERROR) (Some 429) det"

definition createTimeoutError :: "string \<Rightarrow> (string \<times> string) list option \<Rightarrow> ScrapingError" where
  "createTimeoutError msg det = new_ScrapingError msg (Some TIMEOUT_ERROR) (Some 408) det"

definition createScrapingError :: "string \<Rightarrow> (string \<times> string) list option \<Rightarrow> ScrapingError" where
  "createScrapingError msg det = new_ScrapingError msg (Some SCRAPING_ERROR) (Some 500) det"

definition createNetworkError :: "string \<Rightarrow> (string \<times> string) list option \<Rightarrow> ScrapingError" where
  "createNetworkError msg det = new_ScrapingError msg (Some NETWORK_ERROR) (Some 503) det"

definition createBrowserError :: "string \<Rightarrow> (string \<times> string) list option \<Rightarrow> ScrapingError" where
  "createBrowserError msg det = new_ScrapingError msg (Some BROWSER_ERROR) (Some 500) det"

definition createNotFoundError :: "string \<Rightarrow> (string \<times> string) list option \<Rightarrow> ScrapingError" where
  "createNotFoundError msg det = new_ScrapingError msg (Some NOT_FOUND_ERROR) (Some 404) det"

text \<open>
  What \<open>handleError\<close> can be given (its parameter has type \<open>unknown\<close>): an instance of
  \<open>ScrapingError\<close>, another instance of \<open>Error\<close> with its message, or any other value.
\<close>

datatype thrown =
    IsScrapingError ScrapingError
  | IsError string
  | NotAnError

fun handleError :: "thrown \<Rightarrow> ScrapingError" where
  "handleError (IsScrapingError e) = e"
| "handleError (IsError msg) =
     (if str_includes msg ''timeout'' \<or> str_includes msg ''timed out''
      then createTimeoutError (''Operation timed out: '' @ msg) None
      else if str_includes msg ''net::'' \<or> str_includes msg ''network''
      then createNetworkError (''Network error: '' @ msg) None
      else if str_includes msg ''browser'' \<or> str_includes msg ''puppeteer''
      then createBrowserError (''Browser error: '' @ msg) None
      else new_ScrapingError (''Internal error: '' @ msg) (Some INTERNAL_ERROR) (Some 500) None)"
| "handleError NotAnError =
     new_ScrapingError ''An unknown error occurred'' (Some INTERNAL_ERROR) (Some 500) None"

section \<open>markdown.ts\<close>

subsection \<open>The image rule\<close>

text \<open>
  An \<open>img\<close> element as the rule reads it: the \<open>alt\<close> property (a string, empty when the
  attribute is missing) and the attributes \<open>src\<close>, \<open>width\<close> and \<open>height\<close>, for which
  \<open>getAttribute\<close> gives \<open>null\<close> (\<open>None\<close>) when they are missing.
\<close>

record img_element =
  alt :: string
  src_attr :: "string option"
  width_attr :: "string option"
  height_attr :: "string option"

text \<open>A string or \<open>null\<close> is truthy when it is a non-empty string.\<close>

definition truthy :: "string option \<Rightarrow> bool" where
  "truthy v = (case v of None \<Rightarrow> False | Some s \<Rightarrow> s \<noteq> [])"

text \<open>\<open>v || ''\<close>.\<close>

definition or_empty :: "string option \<Rightarrow> string" where
  "or_empty v = (case v of None \<Rightarrow> [] | Some s \<Rightarrow> s)"

definition imageReplacement :: "img_element \<Rightarrow> string" where
  "imageReplacement img =
     (let alt' = alt img;
          src = or_empty (src_attr img)
      in if src = [] then []
         else let width = width_attr img; height = height_attr img
           in if truthy width \<and> truthy height
              then ''!['' @ alt' @ ''](''  @ src @ '' ='' @ or_empty width @ ''x'' @ or_empty height @ '')''
              else if truthy width
              then ''!['' @ alt' @ ''](''  @ src @ '' ='' @ or_empty width @ ''x)''
              else if truthy height
              then ''!['' @ alt' @ ''](''  @ src @ '' =x'' @ or_empty height @ '')''
              else ''!['' @ alt' @ ''](''  @ src @ '')'')"

subsection \<open>The table rule\<close>

text \<open>
  A table is the list of its rows, a row the list of its cells, a cell its
  \<open>textContent\<close> (\<open>None\<close> is \<open>null\<close>). \<open>cellText\<close> is
  \<open>cell.textContent?.trim() || ''\<close>. The content and the result are texts.
\<close>

type_synonym table_row = "ustring option list"

definition cellText :: "ustring option \<Rightarrow> ustring" where
  "cellText c = (case c of None \<Rightarrow> [] | Some s \<Rightarrow> trim s)"

text \<open>\<open>`| ${cells.join(' | ')} |\n`\<close>; the line feed is the code unit 10.\<close>

definition rowLine :: "ustring list \<Rightarrow> ustring" where
  "rowLine cells = ascii ''| '' @ join (ascii '' | '') cells @ ascii '' |'' @ [10]"

text \<open>
  The loop \<open>for (let i = 1; i < rows.length; i++)\<close>, appending one line per row to
  the table built so far.
\<close>

function dataRows :: "table_row list \<Rightarrow> nat \<Rightarrow> ustring \<Rightarrow> ustring" where
  "dataRows rows i markdownTable =
     (if i < length rows
      then dataRows rows (i + 1) (markdownTable @ rowLine (map cellText (rows ! i)))
      else markdownTable)"
  by pat_completeness auto
termination
  by (relation "measure (\<lambda>(rows, i, t). length rows - i)") auto

declare dataRows.simps [simp del]

definition tableReplacement :: "ustring \<Rightarrow> table_row list \<Rightarrow> ustring" where
  "tableReplacement content rows =
     (case rows of
        [] \<Rightarrow> content
      | headerRow # _ \<Rightarrow>
          let markdownTable = [10];
              headers = map cellText headerRow;
              markdownTable = markdownTable @ rowLine headers;
              markdownTable = markdownTable @ rowLine (map (\<lambda>_. ascii ''---'') headers);
              markdownTable = dataRows rows 1 markdownTable
          in markdownTable @ [10])"

section \<open>Field resolution (scrapers/base.ts, scrapers/news.ts)\<close>














section \<open>Retrying (puppeteer.ts, scrapers/base.ts)\<close>

text \<open>
  An operation that is called again and again is given by the outcome of each of its
  calls: \<open>op k\<close> is the outcome of call number \<open>k\<close> (from 0), \<open>Inl\<close> an error that
  is thrown. What a retrying function does is recorded with what it returns: how many
  times it called the operation, and the waits (in milliseconds) between the calls.
\<close>

record 'a retry_result =
  outcome :: "string + 'a"
  attempts :: nat
  delays :: "int list"

text \<open>
  \<open>navigateToUrl\<close> of puppeteer.ts, the function the scrapers navigate with. The loop
  \<open>while (retries < maxRetries)\<close>: the call of \<open>page.goto\<close> is call number
  \<open>retries\<close>, since \<open>retries\<close> counts the calls that have failed. Leaving the loop
  by its condition, the function returns normally.
\<close>

function navigateLoop :: "(nat \<Rightarrow> string + unit) \<Rightarrow> int \<Rightarrow> int \<Rightarrow> int list \<Rightarrow> unit retry_result" where
  "navigateLoop goto maxRetries retries waits =
     (if retries < maxRetries
      then (case goto (nat retries) of
              Inr u \<Rightarrow> \<lparr> outcome = Inr (), attempts = nat retries + 1, delays = waits \<rparr>
            | Inl error \<Rightarrow>
                if retries + 1 \<ge> maxRetries
                then \<lparr> outcome = Inl error, attempts = nat (retries + 1), delays = waits \<rparr>
                else navigateLoop goto maxRetries (retries + 1) (waits @ [1000]))
      else \<lparr> outcome = Inr (), attempts = nat retries, delays = waits \<rparr>)"
  by pat_completeness auto
termination
  by (relation "measure (\<lambda>(goto, maxRetries, retries, waits). nat (maxRetries - retries))") auto

declare navigateLoop.simps [simp del]

text \<open>The option \<open>maxRetries\<close> defaults to 3 when it is \<open>undefined\<close> (\<open>None\<close>).\<close>

definition navigateToUrl :: "(nat \<Rightarrow> string + unit) \<Rightarrow> int option \<Rightarrow> unit retry_result" where
  "navigateToUrl goto maxRetries =
     navigateLoop goto (case maxRetries of None \<Rightarrow> 3 | Some m \<Rightarrow> m) 0 []"

text \<open>
  \<open>BaseScraper.withRetry\<close>. \<open>maxRetries || 3\<close> is 3 when \<open>maxRetries\<close> is
  \<open>undefined\<close> or 0. The loop \<open>for (let attempt = 0; attempt < (maxRetries || 3) + 1;
  attempt++)\<close>; after it, \<open>throw lastError || new Error('Operation failed after
  retries')\<close>.
\<close>

definition orThree :: "int option \<Rightarrow> int" where
  "orThree maxRetries = (case maxRetries of None \<Rightarrow> 3 | Some m \<Rightarrow> if m = 0 then 3 else m)"

definition throwLast :: "string option \<Rightarrow> string + 'a" where
  "throwLast lastError =
     Inl (case lastError of None \<Rightarrow> ''Operation failed after retries'' | Some e \<Rightarrow> e)"

function withRetryLoop ::
  "(nat \<Rightarrow> string + 'a) \<Rightarrow> int option \<Rightarrow> int \<Rightarrow> string option \<Rightarrow> int list \<Rightarrow> 'a retry_result" where
  "withRetryLoop fn maxRetries attempt lastError waits =
     (if attempt < orThree maxRetries + 1
      then (case fn (nat attempt) of
              Inr v \<Rightarrow> \<lparr> outcome = Inr v, attempts = nat attempt + 1, delays = waits \<rparr>
            | Inl error \<Rightarrow>
                if attempt \<ge> orThree maxRetries
                then \<lparr> outcome = throwLast (Some error), attempts = nat attempt + 1,
                       delays = waits \<rparr>
                else withRetryLoop fn maxRetries (attempt + 1) (Some error)
                       (waits @ [2 ^ nat attempt * 1000]))
      else \<lparr> outcome = throwLast lastError, attempts = nat attempt, delays = waits \<rparr>)"
  by pat_completeness auto
termination
  by (relation "measure (\<lambda>(fn, maxRetries, attempt, lastError, waits).
        nat (orThree maxRetries + 1 - attempt))") auto

declare withRetryLoop.simps [simp del]

definition withRetry :: "(nat \<Rightarrow> string + 'a) \<Rightarrow> int option \<Rightarrow> 'a retry_result" where
  "withRetry fn maxRetries = withRetryLoop fn maxRetries 0 None []"

section \<open>cache.ts: the cache key\<close>

text \<open>
  The values of the parameter object (\<open>Record<string, unknown>\<close>): \<open>undefined\<close>,
  \<open>null\<close>, booleans, strings, and the numbers that are 32-bit integers (\<open>JNum w\<close> is
  the number \<open>sint w\<close>); \<open>JSON.stringify\<close> prints such a number with all its digits.
\<close>

datatype jsvalue = JUndefined | JNull | JBool bool | JNum "32 word" | JStr string

text \<open>The decimal digits of a natural number.\<close>

function decimal :: "nat \<Rightarrow> string" where
  "decimal n = (if n < 10 then [''0123456789'' ! n]
                else decimal (n div 10) @ [''0123456789'' ! (n mod 10)])"
  by pat_completeness auto
termination
  by (relation "measure id") auto

declare decimal.simps [simp del]

definition numberToString :: "32 word \<Rightarrow> string" where
  "numberToString w =
     (let i = sint w
      in if i < 0 then ''-'' @ decimal (nat (- i)) else decimal (nat i))"

text \<open>
  \<open>JSON.stringify\<close> on a string quotes it and escapes the quote, the backslash and the
  control characters.
\<close>

definition escapeChar :: "char \<Rightarrow> string" where
  "escapeChar c =
     (let n = of_char c :: nat
      in if n = 0x22 then [CHR 0x5C, CHR 0x22]
         else if n = 0x5C then [CHR 0x5C, CHR 0x5C]
         else if n = 0x08 then [CHR 0x5C, CHR ''b'']
         else if n = 0x0C then [CHR 0x5C, CHR ''f'']
         else if n = 0x0A then [CHR 0x5C, CHR ''n'']
         else if n = 0x0D then [CHR 0x5C, CHR ''r'']
         else if n = 0x09 then [CHR 0x5C, CHR ''t'']
         else if n < 0x20
         then [CHR 0x5C, CHR ''u'', CHR ''0'', CHR ''0'',
               ''0123456789abcdef'' ! (n div 16), ''0123456789abcdef'' ! (n mod 16)]
         else [c])"

text \<open>
  \<open>`${JSON.stringify(v)}`\<close>: for \<open>undefined\<close>, \<open>JSON.stringify\<close> gives
  \<open>undefined\<close>, which the template prints as such.
\<close>

fun JSON_stringify :: "jsvalue \<Rightarrow> string" where
  "JSON_stringify JUndefined = ''undefined''"
| "JSON_stringify JNull = ''null''"
| "JSON_stringify (JBool b) = (if b then ''true'' else ''false'')"
| "JSON_stringify (JNum w) = numberToString w"
| "JSON_stringify (JStr s) = [CHR 0x22] @ concat (map escapeChar s) @ [CHR 0x22]"

text \<open>
  \<open>Buffer.from(key).toString('base64')\<close>: three bytes give four characters of the
  alphabet, and the last group is padded with \<open>=\<close>.
\<close>

definition base64Alphabet :: string where
  "base64Alphabet = ''ABCDEFGHIJKLMNOPQRSTUVWXYZabcdefghijklmnopqrstuvwxyz0123456789+/''"

fun base64 :: "string \<Rightarrow> string" where
  "base64 [] = []"
| "base64 [a] =
     (let n = of_char a * 65536 :: nat
      in [base64Alphabet ! (n div 262144), base64Alphabet ! (n div 4096 mod 64),
          CHR ''='', CHR ''=''])"
| "base64 [a, b] =
     (let n = of_char a * 65536 + of_char b * 256 :: nat
      in [base64Alphabet ! (n div 262144), base64Alphabet ! (n div 4096 mod 64),
          base64Alphabet ! (n div 64 mod 64), CHR ''=''])"
| "base64 (a # b # c # rest) =
     (let n = of_char a * 65536 + of_char b * 256 + of_char c :: nat
      in [base64Alphabet ! (n div 262144), base64Alphabet ! (n div 4096 mod 64),
          base64Alphabet ! (n div 64 mod 64), base64Alphabet ! (n mod 64)] @ base64 rest)"

text \<open>\<open>.replace(/[+/=]/g, '_')\<close>, character by character.\<close>

definition urlSafe :: "char \<Rightarrow> char" where
  "urlSafe c = (if c = CHR ''+'' \<or> c = CHR ''/'' \<or> c = CHR ''='' then CHR ''_'' else c)"

text \<open>
  The parameter object is the list of its properties in the order of their insertion; the
  keys of an object are distinct. \<open>paramValue params key\<close> is \<open>params[key]\<close>.
  \<open>Object.keys(params).sort()\<close> sorts the keys as strings, by their code units.
\<close>

definition paramValue :: "(string \<times> jsvalue) list \<Rightarrow> string \<Rightarrow> jsvalue" where
  "paramValue params key = (case map_of params key of None \<Rightarrow> JUndefined | Some v \<Rightarrow> v)"

definition generateCacheKey :: "string \<Rightarrow> (string \<times> jsvalue) list \<Rightarrow> string \<Rightarrow> string" where
  "generateCacheKey url params namespace =
     (let paramsString =
            join ''|'' (map (\<lambda>key. key @ '':'' @ JSON_stringify (paramValue params key))
                          (sort (map fst params)));
          key = namespace @ '':'' @ url @ (if paramsString \<noteq> [] then '':'' @ paramsString else [])
      in map urlSafe (base64 key))"

section \<open>The key-value store (mock-kv.ts)\<close>

text \<open>
  \<open>cache.ts\<close> and \<open>ratelimit.ts\<close> reach the store through the imported object \<open>kv\<close>.
  Here it is a parameter: a client over some state \<open>'s\<close>, with the two operations the
  sources call. Each takes the time of the call (milliseconds), and each may throw
  (\<open>Inl\<close>). \<open>kv_get\<close> gives the value, \<open>None\<close> for \<open>null\<close>, and the state after the
  read; \<open>kv_set\<close> takes the value and the option \<open>ex\<close> (seconds).
\<close>

record ('s, 'v) kv_client =
  kv_get :: "int \<Rightarrow> string \<Rightarrow> 's \<Rightarrow> string + ('v option \<times> 's)"
  kv_set :: "int \<Rightarrow> string \<Rightarrow> 'v option \<Rightarrow> int \<Rightarrow> 's \<Rightarrow> string + 's"

text \<open>
  The store of the repository, \<open>class MockKV\<close>: a \<open>Map\<close> from keys to items
  \<open>{ value, expiry? }\<close>. \<open>get\<close> gives \<open>null\<close> for a missing key, deletes an item whose
  \<open>expiry\<close> is set (and not 0) and lies before now, and gives the value otherwise.
  \<open>set\<close> stores the item, with \<open>expiry = now + ex * 1000\<close> unless \<open>ex\<close> is 0.
\<close>

type_synonym 'v mock_store = "string \<rightharpoonup> ('v option \<times> int option)"

text \<open>\<open>item.expiry && item.expiry < Date.now()\<close>.\<close>

definition expired :: "int option \<Rightarrow> int \<Rightarrow> bool" where
  "expired expiry now = (case expiry of None \<Rightarrow> False | Some e \<Rightarrow> e \<noteq> 0 \<and> e < now)"

definition mock_get :: "int \<Rightarrow> string \<Rightarrow> 'v mock_store \<Rightarrow> string + ('v option \<times> 'v mock_store)" where
  "mock_get now key store =
     (case store key of
        None \<Rightarrow> Inr (None, store)
      | Some (val, expiry) \<Rightarrow>
          if expired expiry now
          then Inr (None, store(key := None))
          else Inr (val, store))"

definition mock_set :: "int \<Rightarrow> string \<Rightarrow> 'v option \<Rightarrow> int \<Rightarrow> 'v mock_store \<Rightarrow> string + 'v mock_store" where
  "mock_set now key val ex store =
     Inr (store(key \<mapsto> (val, if ex \<noteq> 0 then Some (now + ex * 1000) else None)))"

definition MockKV :: "('v mock_store, 'v) kv_client" where
  "MockKV = \<lparr> kv_get = mock_get, kv_set = mock_set \<rparr>"

text \<open>The value stored for a key (\<open>None\<close>: no item, or the value \<open>null\<close>).\<close>

definition storedValue :: "'v mock_store \<Rightarrow> string \<Rightarrow> 'v option" where
  "storedValue store key = (case store key of None \<Rightarrow> None | Some (val, expiry) \<Rightarrow> val)"

section \<open>cache.ts\<close>

text \<open>\<open>CACHE_TTL_SECONDS\<close> is taken as unset.\<close>

definition DEFAULT_CACHE_TTL :: int where
  "DEFAULT_CACHE_TTL = 3600"

definition getCachedValue :: "('s, 'v) kv_client \<Rightarrow> int \<Rightarrow> string \<Rightarrow> 's \<Rightarrow> 'v option \<times> 's" where
  "getCachedValue kv now key s =
     (case kv_get kv now key s of
        Inr (val, s') \<Rightarrow> (val, s')
      | Inl error \<Rightarrow> (None, s))"

text \<open>The option \<open>ttl\<close> is \<open>None\<close> when the caller leaves it out.\<close>

definition setCachedValue ::
  "('s, 'v) kv_client \<Rightarrow> int \<Rightarrow> string \<Rightarrow> 'v option \<Rightarrow> int option \<Rightarrow> 's \<Rightarrow> bool \<times> 's" where
  "setCachedValue kv now key val ttl_opt s =
     (let ttl = (case ttl_opt of None \<Rightarrow> DEFAULT_CACHE_TTL | Some t \<Rightarrow> t)
      in case kv_set kv now key val ttl s of
           Inr s' \<Rightarrow> (True, s')
         | Inl error \<Rightarrow> (False, s))"

text \<open>
  \<open>getOrSetCachedValue\<close>. The factory is an operation in the sense above:
  \<open>factory k\<close> is the outcome of its call number \<open>k\<close>, a value (\<open>None\<close> for \<open>null\<close>)
  or an error that it throws. The state is the store together with the number of calls
  of the factory so far. \<open>now1\<close> is the time of the read, \<open>now2\<close> the time of the
  write.
\<close>

definition getOrSetCachedValue ::
  "('s, 'v) kv_client \<Rightarrow> int \<Rightarrow> int \<Rightarrow> string \<Rightarrow> (nat \<Rightarrow> string + 'v option) \<Rightarrow> int option
     \<Rightarrow> 's \<times> nat \<Rightarrow> (string + 'v option) \<times> 's \<times> nat" where
  "getOrSetCachedValue kv now1 now2 key factory ttl_opt st =
     (let (s, calls) = st;
          (cachedValue, s1) = getCachedValue kv now1 key s
      in if cachedValue \<noteq> None then (Inr cachedValue, s1, calls)
         else case factory calls of
                Inl error \<Rightarrow> (Inl error, s1, calls + 1)
              | Inr val \<Rightarrow>
                  let (ok, s2) = setCachedValue kv now2 key val ttl_opt s1
                  in (Inr val, s2, calls + 1))"

text \<open>A sequence of calls of \<open>getOrSetCachedValue\<close> for one key, one after the other.\<close>

fun getOrSetCalls ::
  "('s, 'v) kv_client \<Rightarrow> string \<Rightarrow> (nat \<Rightarrow> string + 'v option) \<Rightarrow> int option
     \<Rightarrow> (int \<times> int) list \<Rightarrow> 's \<times> nat \<Rightarrow> 's \<times> nat" where
  "getOrSetCalls kv key factory ttl_opt [] st = st"
| "getOrSetCalls kv key factory ttl_opt ((now1, now2) # later) st =
     getOrSetCalls kv key factory ttl_opt later
       (snd (getOrSetCachedValue kv now1 now2 key factory ttl_opt st))"

section \<open>ratelimit.ts\<close>

text \<open>
  The stored record \<open>{ count, reset }\<close> and the interface \<open>RateLimitInfo\<close>, whose
  fields \<open>reset\<close> and \<open>max\<close> are \<open>info_reset\<close> and \<open>info_max\<close> here.
\<close>

record RateLimitData =
  count :: int
  reset :: int

record RateLimitInfo =
  limited :: bool
  remaining :: int
  info_reset :: int
  current :: int
  info_max :: int
  resetInSeconds :: int

text \<open>The key \<open>`ratelimit:${domain}`\<close>.\<close>

definition rateLimitKey :: "string \<Rightarrow> string" where
  "rateLimitKey domain = ''ratelimit:'' @ domain"

text \<open>
  \<open>checkRateLimit\<close>. \<open>now\<close> is \<open>Date.now()\<close>: the function reads the clock more than
  once, and the readings of one call are taken to be the same instant. Numbers are
  integers. The last case is the \<open>catch\<close>.
\<close>

definition checkRateLimit ::
  "('s, RateLimitData) kv_client \<Rightarrow> int \<Rightarrow> string \<Rightarrow> int \<Rightarrow> int \<Rightarrow> 's \<Rightarrow> RateLimitInfo \<times> 's" where
  "checkRateLimit kv now domain maxRequests windowMs s =
     (let key = rateLimitKey domain;
          notLimited = \<lparr> limited = False, remaining = maxRequests, info_reset = now + windowMs,
                         current = 0, info_max = maxRequests,
                         resetInSeconds = ceil_div1000 windowMs \<rparr>
      in case kv_get kv now key s of
           Inr (rateLimitData, s') \<Rightarrow>
             (case rateLimitData of
                None \<Rightarrow> (notLimited, s')
              | Some d \<Rightarrow>
                  if now > reset d then (notLimited, s')
                  else let remaining = maxRequests - count d;
                           resetInSeconds = ceil_div1000 (reset d - now)
                       in (\<lparr> limited = remaining \<le> 0, remaining = remaining,
                             info_reset = reset d, current = count d, info_max = maxRequests,
                             resetInSeconds = resetInSeconds \<rparr>, s'))
         | Inl error \<Rightarrow>
             (\<lparr> limited = False, remaining = maxRequests, info_reset = now + windowMs,
                current = 0, info_max = maxRequests,
                resetInSeconds = ceil_div1000 windowMs \<rparr>, s))"

text \<open>
  \<open>incrementRateLimit\<close>. Both the read and the write are inside the \<open>try\<close>;
  \<open>caught\<close> is what the \<open>catch\<close> returns. \<open>newEntry\<close> is the branch for no data
  or a reset time that has passed.
\<close>

definition incrementRateLimit ::
  "('s, RateLimitData) kv_client \<Rightarrow> int \<Rightarrow> string \<Rightarrow> int \<Rightarrow> int \<Rightarrow> 's \<Rightarrow> RateLimitInfo \<times> 's" where
  "incrementRateLimit kv now domain maxRequests windowMs s =
     (let key = rateLimitKey domain;
          caught = \<lparr> limited = False, remaining = maxRequests, info_reset = now + windowMs,
                     current = 0, info_max = maxRequests,
                     resetInSeconds = ceil_div1000 windowMs \<rparr>
      in case kv_get kv now key s of
           Inl error \<Rightarrow> (caught, s)
         | Inr (rateLimitData, s1) \<Rightarrow>
             let newEntry =
                   (let reset' = now + windowMs
                    in case kv_set kv now key (Some \<lparr> count = 1, reset = reset' \<rparr>)
                              (ceil_div1000 windowMs) s1 of
                         Inl error \<Rightarrow> (caught, s1)
                       | Inr s2 \<Rightarrow>
                           (\<lparr> limited = False, remaining = maxRequests - 1,
                              info_reset = reset', current = 1, info_max = maxRequests,
                              resetInSeconds = ceil_div1000 windowMs \<rparr>, s2))
             in case rateLimitData of
                  None \<Rightarrow> newEntry
                | Some d \<Rightarrow>
                    if now > reset d then newEntry
                    else let count' = count d + 1;
                             reset' = reset d;
                             remaining = maxRequests - count';
                             resetInSeconds = ceil_div1000 (reset' - now)
                         in case kv_set kv now key (Some \<lparr> count = count', reset = reset' \<rparr>)
                                   resetInSeconds s1 of
                              Inl error \<Rightarrow> (caught, s1)
                            | Inr s2 \<Rightarrow>
                                (\<lparr> limited = remaining \<le> 0, remaining = remaining,
                                   info_reset = reset', current = count',
                                   info_max = maxRequests,
                                   resetInSeconds = resetInSeconds \<rparr>, s2))"

text \<open>
  \<open>checkAndIncrementRateLimit\<close>; \<open>now1\<close> is the time of the check, \<open>now2\<close> the time of
  the increment.
\<close>

definition checkAndIncrementRateLimit ::
  "('s, RateLimitData) kv_client \<Rightarrow> int \<Rightarrow> int \<Rightarrow> string \<Rightarrow> int \<Rightarrow> int \<Rightarrow> 's \<Rightarrow> RateLimitInfo \<times> 's" where
  "checkAndIncrementRateLimit kv now1 now2 domain maxRequests windowMs s =
     (let (rateLimitInfo, s1) = checkRateLimit kv now1 domain maxRequests windowMs s
      in if limited rateLimitInfo then (rateLimitInfo, s1)
         else incrementRateLimit kv now2 domain maxRequests windowMs s1)"

text \<open>
  A sequence of calls of \<open>checkAndIncrementRateLimit\<close> for one domain, one after the
  other, each with the times of its check and of its increment: the results, in order,
  and the store at the end.
\<close>

fun admissions ::
  "('s, RateLimitData) kv_client \<Rightarrow> string \<Rightarrow> int \<Rightarrow> int \<Rightarrow> (int \<times> int) list \<Rightarrow> 's
     \<Rightarrow> RateLimitInfo list \<times> 's" where
  "admissions kv domain maxRequests windowMs [] s = ([], s)"
| "admissions kv domain maxRequests windowMs ((now1, now2) # later) s =
     (let (info, s1) = checkAndIncrementRateLimit kv now1 now2 domain maxRequests windowMs s;
          (infos, s2) = admissions kv domain maxRequests windowMs later s1
      in (info # infos, s2))"

text \<open>
  The invariant of the rate limiter's record in the store: its count is at most
  \<open>maxRequests\<close>, and the item does not expire before the window's reset time.
\<close>

definition windowInv :: "int \<Rightarrow> RateLimitData mock_store \<Rightarrow> string \<Rightarrow> bool" where
  "windowInv maxRequests store key =
     (case store key of
        None \<Rightarrow> True
      | Some (val, expiry) \<Rightarrow>
          (case val of
             None \<Rightarrow> True
           | Some d \<Rightarrow> count d \<le> maxRequests \<and> \<not> expired expiry (reset d)))"

section \<open>Sample stores\<close>

text \<open>
  A store that is down (every operation throws), one that can be read, and is empty,
  but not written, and one that is the repository's store except that a read at the
  time \<open>failAt\<close> throws.
\<close>

definition flakyKV :: "int \<Rightarrow> ('v mock_store, 'v) kv_client" where
  "flakyKV failAt =
     \<lparr> kv_get = (\<lambda>now key store. if now = failAt then Inl ''ETIMEDOUT''
                                     else mock_get now key store),
       kv_set = mock_set \<rparr>"

definition downKV :: "(unit, 'v) kv_client" where
  "downKV = \<lparr> kv_get = (\<lambda>now key s. Inl ''ECONNREFUSED''),
              kv_set = (\<lambda>now key val ex s. Inl ''ECONNREFUSED'') \<rparr>"

definition readOnlyKV :: "(unit, 'v) kv_client" where
  "readOnlyKV = \<lparr> kv_get = (\<lambda>now key s. Inr (None, s)),
                  kv_set = (\<lambda>now key val ex s. Inl ''READONLY'') \<rparr>"

section \<open>Properties\<close>

subsection \<open>Library functions\<close>

lemma str_includes_iff: "str_includes s t \<longleftrightarrow> (\<exists>p q. s = p @ t @ q)"
proof (induction s)
  case Nil
  then show ?case by auto
next
  case (Cons c s)
  have "(\<exists>p q. c # s = p @ t @ q) \<longleftrightarrow> prefix t (c # s) \<or> (\<exists>p q. s = p @ t @ q)"
  proof
    assume "\<exists>p q. c # s = p @ t @ q"
    then obtain p q where pq: "c # s = p @ t @ q" by blast
    show "prefix t (c # s) \<or> (\<exists>p q. s = p @ t @ q)"
    proof (cases p)
      case Nil
      with pq show ?thesis by (auto simp: prefix_def)
    next
      case (Cons a p')
      with pq have "s = p' @ t @ q" by simp
      then show ?thesis by blast
    qed
  next
    assume "prefix t (c # s) \<or> (\<exists>p q. s = p @ t @ q)"
    then show "\<exists>p q. c # s = p @ t @ q"
    proof
      assume "prefix t (c # s)"
      then obtain q where "c # s = t @ q" by (auto simp: prefix_def)
      then have "c # s = [] @ t @ q" by simp
      then show ?thesis by blast
    next
      assume "\<exists>p q. s = p @ t @ q"
      then obtain p q where "s = p @ t @ q" by blast
      then have "c # s = (c # p) @ t @ q" by simp
      then show ?thesis by blast
    qed
  qed
  with Cons.IH show ?case by simp
qed

lemma join_replicate_map: "map (\<lambda>_. x) ys = replicate (length ys) x"
  by (induction ys) auto

text \<open>
  What \<open>trim\<close> gives is the text without a prefix and a suffix of white space, and it
  neither starts nor ends with white space.
\<close>

lemma trim_spec:
  "\<exists>l r. s = l @ trim s @ r
     \<and> (\<forall>c \<in> set l. isWhiteSpace c) \<and> (\<forall>c \<in> set r. isWhiteSpace c)
     \<and> (trim s = [] \<or> (\<not> isWhiteSpace (hd (trim s)) \<and> \<not> isWhiteSpace (last (trim s))))"
proof -
  define d where "d = dropWhile isWhiteSpace s"
  define l where "l = takeWhile isWhiteSpace s"
  define r where "r = rev (takeWhile isWhiteSpace (rev d))"
  have t: "trim s = rev (dropWhile isWhiteSpace (rev d))"
    by (simp add: trim_def d_def)
  have "d = rev (takeWhile isWhiteSpace (rev d) @ dropWhile isWhiteSpace (rev d))"
    by (simp only: takeWhile_dropWhile_id rev_rev_ident)
  then have d: "d = trim s @ r"
    by (simp only: rev_append t r_def)
  have "s = l @ d"
    by (simp add: l_def d_def)
  with d have s: "s = l @ trim s @ r"
    by simp
  have wl: "\<forall>c \<in> set l. isWhiteSpace c"
    by (auto simp: l_def dest: set_takeWhileD)
  have wr: "\<forall>c \<in> set r. isWhiteSpace c"
    by (auto simp: r_def dest: set_takeWhileD)
  have ends: "\<not> isWhiteSpace (hd (trim s)) \<and> \<not> isWhiteSpace (last (trim s))"
    if ne: "trim s \<noteq> []"
  proof
    from ne d have "d \<noteq> []" and "hd (trim s) = hd d" by simp_all
    then show "\<not> isWhiteSpace (hd (trim s))"
      by (simp add: d_def hd_dropWhile)
    from ne have n: "dropWhile isWhiteSpace (rev d) \<noteq> []" by (simp add: t)
    then have "last (trim s) = hd (dropWhile isWhiteSpace (rev d))"
      by (simp add: t last_rev)
    with n show "\<not> isWhiteSpace (last (trim s))"
      by (simp add: hd_dropWhile)
  qed
  from s wl wr ends show ?thesis by blast
qed

subsection \<open>The error classifier\<close>

lemma new_ScrapingError_fields:
  "errType (new_ScrapingError m (Some t) (Some c) d) = t"
  "statusCode (new_ScrapingError m (Some t) (Some c) d) = c"
  "message (new_ScrapingError m t' c' d) = m"
  "errType (new_ScrapingError m None c' d) = INTERNAL_ERROR"
  "statusCode (new_ScrapingError m t' None d) = 500"
  by (simp_all add: new_ScrapingError_def)

text \<open>
  Claim C4. \<open>handleError\<close> returns an instance of \<open>ScrapingError\<close> unchanged. For another
  \<open>Error\<close> it looks at the message: one that contains "timeout" or "timed out" gives a
  Timeout error with status 408; otherwise one that contains "net::" or "network" gives a
  Network error with status 503; otherwise one that contains "browser" or "puppeteer"
  gives a Browser error with status 500; every other error, and every value that is not
  an error, gives an Internal error with status 500. The factories fix the status of
  each kind: Validation 400, RateLimit 429, Timeout 408, Scraping 500, Network 503,
  Browser 500, NotFound 404, and the constructor's default is Internal with 500.
\<close>

theorem handleError_classifies:
  "handleError (IsScrapingError e) = e
   \<and> (str_includes m1 ''timeout'' \<or> str_includes m1 ''timed out'' \<longrightarrow>
        errType (handleError (IsError m1)) = TIMEOUT_ERROR
        \<and> statusCode (handleError (IsError m1)) = 408)
   \<and> (\<not> (str_includes m2 ''timeout'' \<or> str_includes m2 ''timed out'')
        \<and> (str_includes m2 ''net::'' \<or> str_includes m2 ''network'') \<longrightarrow>
        errType (handleError (IsError m2)) = NETWORK_ERROR
        \<and> statusCode (handleError (IsError m2)) = 503)
   \<and> (\<not> (str_includes m3 ''timeout'' \<or> str_includes m3 ''timed out'')
        \<and> \<not> (str_includes m3 ''net::'' \<or> str_includes m3 ''network'')
        \<and> (str_includes m3 ''browser'' \<or> str_includes m3 ''puppeteer'') \<longrightarrow>
        errType (handleError (IsError m3)) = BROWSER_ERROR
        \<and> statusCode (handleError (IsError m3)) = 500)
   \<and> (\<not> (str_includes m4 ''timeout'' \<or> str_includes m4 ''timed out'')
        \<and> \<not> (str_includes m4 ''net::'' \<or> str_includes m4 ''network'')
        \<and> \<not> (str_includes m4 ''browser'' \<or> str_includes m4 ''puppeteer'') \<longrightarrow>
        errType (handleError (IsError m4)) = INTERNAL_ERROR
        \<and> statusCode (handleError (IsError m4)) = 500)
   \<and> errType (handleError NotAnError) = INTERNAL_ERROR
   \<and> statusCode (handleError NotAnError) = 500
   \<and> (errType (createValidationError m d), statusCode (createValidationError m d))
        = (VALIDATION_ERROR, 400)
   \<and> (errType (createRateLimitError m d), statusCode (createRateLimitError m d))
        = (RATE_LIMIT_ERROR, 429)
   \<and> (errType (createTimeoutError m d), statusCode (createTimeoutError m d))
        = (TIMEOUT_ERROR, 408)
   \<and> (errType (createScrapingError m d), statusCode (createScrapingError m d))
        = (SCRAPING_ERROR, 500)
   \<and> (errType (createNetworkError m d), statusCode (createNetworkError m d))
        = (NETWORK_ERROR, 503)
   \<and> (errType (createBrowserError m d), statusCode (createBrowserError m d))
        = (BROWSER_ERROR, 500)
   \<and> (errType (createNotFoundError m d), statusCode (createNotFoundError m d))
        = (NOT_FOUND_ERROR, 404)
   \<and> (errType (new_ScrapingError m None None d), statusCode (new_ScrapingError m None None d))
        = (INTERNAL_ERROR, 500)"
  by (simp add: new_ScrapingError_fields createValidationError_def createRateLimitError_def
      createTimeoutError_def createScrapingError_def createNetworkError_def
      createBrowserError_def createNotFoundError_def)

theorem handleError_classifies_witness:
  "(str_includes ''Navigation timeout of 30000 ms exceeded'' ''timeout''
      \<or> str_includes ''Navigation timeout of 30000 ms exceeded'' ''timed out'')
   \<and> errType (handleError (IsError ''Navigation timeout of 30000 ms exceeded'')) = TIMEOUT_ERROR
   \<and> statusCode (handleError (IsError ''Navigation timeout of 30000 ms exceeded'')) = 408
   \<and> \<not> (str_includes ''net::ERR_FAILED'' ''timeout'' \<or> str_includes ''net::ERR_FAILED'' ''timed out'')
   \<and> (str_includes ''net::ERR_FAILED'' ''net::'' \<or> str_includes ''net::ERR_FAILED'' ''network'')
   \<and> errType (handleError (IsError ''net::ERR_FAILED'')) = NETWORK_ERROR
   \<and> statusCode (handleError (IsError ''net::ERR_FAILED'')) = 503
   \<and> \<not> (str_includes ''browser closed'' ''timeout'' \<or> str_includes ''browser closed'' ''timed out'')
   \<and> \<not> (str_includes ''browser closed'' ''net::'' \<or> str_includes ''browser closed'' ''network'')
   \<and> (str_includes ''browser closed'' ''browser'' \<or> str_includes ''browser closed'' ''puppeteer'')
   \<and> errType (handleError (IsError ''browser closed'')) = BROWSER_ERROR
   \<and> statusCode (handleError (IsError ''browser closed'')) = 500
   \<and> \<not> (str_includes ''boom'' ''timeout'' \<or> str_includes ''boom'' ''timed out'')
   \<and> \<not> (str_includes ''boom'' ''net::'' \<or> str_includes ''boom'' ''network'')
   \<and> \<not> (str_includes ''boom'' ''browser'' \<or> str_includes ''boom'' ''puppeteer'')
   \<and> errType (handleError (IsError ''boom'')) = INTERNAL_ERROR
   \<and> statusCode (handleError (IsError ''boom'')) = 500"
  using handleError_classifies [of undefined "''Navigation timeout of 30000 ms exceeded''"
      "''net::ERR_FAILED''" "''browser closed''" "''boom''" undefined undefined]
  by simp

subsection \<open>The image rule\<close>

text \<open>
  Claim C6. For an \<open>img\<close> element with a non-empty \<open>src\<close>, the rule gives
  \<open>![alt](src =WxH)\<close> when both \<open>width\<close> and \<open>height\<close> are there, \<open>![alt](src =Wx)\<close>
  with the width alone, \<open>![alt](src =xH)\<close> with the height alone and \<open>![alt](src)\<close>
  with neither; an empty or missing \<open>src\<close> gives the empty string. In particular
  \<open>alt="x" src="y" width="10" height="20"\<close> gives \<open>![x](y =10x20)\<close>, and without the
  two sizes \<open>![x](y)\<close>.
\<close>

theorem imageReplacement_forms:
  assumes "src \<noteq> []" and "w \<noteq> []" and "h \<noteq> []"
  shows "imageReplacement \<lparr>alt = a, src_attr = Some src, width_attr = Some w, height_attr = Some h\<rparr>
           = ''!['' @ a @ ''](''  @ src @ '' ='' @ w @ ''x'' @ h @ '')''
       \<and> imageReplacement \<lparr>alt = a, src_attr = Some src, width_attr = Some w, height_attr = None\<rparr>
           = ''!['' @ a @ ''](''  @ src @ '' ='' @ w @ ''x)''
       \<and> imageReplacement \<lparr>alt = a, src_attr = Some src, width_attr = None, height_attr = Some h\<rparr>
           = ''!['' @ a @ ''](''  @ src @ '' =x'' @ h @ '')''
       \<and> imageReplacement \<lparr>alt = a, src_attr = Some src, width_attr = None, height_attr = None\<rparr>
           = ''!['' @ a @ ''](''  @ src @ '')''
       \<and> imageReplacement \<lparr>alt = a, src_attr = Some [], width_attr = wo, height_attr = ho\<rparr> = []
       \<and> imageReplacement \<lparr>alt = a, src_attr = None, width_attr = wo, height_attr = ho\<rparr> = []
       \<and> imageReplacement \<lparr>alt = ''x'', src_attr = Some ''y'', width_attr = Some ''10'',
            height_attr = Some ''20''\<rparr> = ''![x](y =10x20)''
       \<and> imageReplacement \<lparr>alt = ''x'', src_attr = Some ''y'', width_attr = None,
            height_attr = None\<rparr> = ''![x](y)''"
  using assms by (simp add: imageReplacement_def truthy_def or_empty_def)

theorem imageReplacement_forms_witness:
  "imageReplacement \<lparr>alt = ''logo'', src_attr = Some ''/a.png'', width_attr = Some ''640'',
       height_attr = Some ''480''\<rparr> = ''![logo](/a.png =640x480)''
   \<and> imageReplacement \<lparr>alt = ''logo'', src_attr = Some ''/a.png'', width_attr = Some ''640'',
       height_attr = None\<rparr> = ''![logo](/a.png =640x)''
   \<and> imageReplacement \<lparr>alt = ''logo'', src_attr = Some ''/a.png'', width_attr = None,
       height_attr = Some ''480''\<rparr> = ''![logo](/a.png =x480)''
   \<and> imageReplacement \<lparr>alt = ''logo'', src_attr = Some ''/a.png'', width_attr = None,
       height_attr = None\<rparr> = ''![logo](/a.png)''
   \<and> imageReplacement \<lparr>alt = ''logo'', src_attr = Some [], width_attr = Some ''640'',
       height_attr = None\<rparr> = []"
  using imageReplacement_forms [of "''/a.png''" "''640''" "''480''" "''logo''" "Some ''640''" None]
  by simp

subsection \<open>The table rule\<close>

lemma dataRows_drop:
  "dataRows rows i acc = acc @ concat (map (\<lambda>r. rowLine (map cellText r)) (drop i rows))"
proof (induction rows i acc rule: dataRows.induct)
  case (1 rows i acc)
  show ?case
  proof (cases "i < length rows")
    case True
    then have "drop i rows = rows ! i # drop (Suc i) rows"
      by (simp add: Cons_nth_drop_Suc)
    with True "1.IH" show ?thesis
      by (subst dataRows.simps) simp
  next
    case False
    then show ?thesis
      by (subst dataRows.simps) simp
  qed
qed

lemma cellText_fun: "cellText = (\<lambda>c. case c of None \<Rightarrow> [] | Some s \<Rightarrow> trim s)"
  by (simp add: fun_eq_iff cellText_def)

text \<open>
  Claim C7. A table with no rows gives back the content it was given. Otherwise the result
  is a line feed; the header line \<open>| h1 | h2 |\<close> made of the trimmed texts of the cells
  of the first row; the separator line \<open>| --- | --- |\<close> with one \<open>---\<close> for each cell
  of the first row; one line \<open>| c1 | c2 |\<close> for each remaining row, in the order of the
  rows; and a line feed. For the table with the rows \<open>" A ", "B"\<close> and \<open>"&nbsp;1",
  null\<close> the result is, code unit by code unit, a line feed, \<open>| A | B |\<close>,
  \<open>| --- | --- |\<close>, \<open>| 1 |  |\<close>, each with its line feed, and a line feed.
\<close>

theorem tableReplacement_rows:
  "tableReplacement content [] = content
   \<and> tableReplacement content (headerRow # rest) =
       [10]
       @ ascii ''| ''
       @ join (ascii '' | '') (map (\<lambda>c. case c of None \<Rightarrow> [] | Some s \<Rightarrow> trim s) headerRow)
       @ ascii '' |'' @ [10]
       @ ascii ''| '' @ join (ascii '' | '') (replicate (length headerRow) (ascii ''---''))
       @ ascii '' |'' @ [10]
       @ concat (map (\<lambda>row. ascii ''| ''
                    @ join (ascii '' | '') (map (\<lambda>c. case c of None \<Rightarrow> [] | Some s \<Rightarrow> trim s) row)
                    @ ascii '' |'' @ [10]) rest)
       @ [10]
   \<and> tableReplacement content [[Some [32, 65, 32], Some [66]], [Some [160, 49], None]] =
       [10,
        124, 32, 65, 32, 124, 32, 66, 32, 124, 10,
        124, 32, 45, 45, 45, 32, 124, 32, 45, 45, 45, 32, 124, 10,
        124, 32, 49, 32, 124, 32, 32, 124, 10,
        10]"
proof (intro conjI)
  show "tableReplacement content [] = content"
    by (simp add: tableReplacement_def)
  show g: "tableReplacement content (headerRow # rest) =
       [10]
       @ ascii ''| ''
       @ join (ascii '' | '') (map (\<lambda>c. case c of None \<Rightarrow> [] | Some s \<Rightarrow> trim s) headerRow)
       @ ascii '' |'' @ [10]
       @ ascii ''| '' @ join (ascii '' | '') (replicate (length headerRow) (ascii ''---''))
       @ ascii '' |'' @ [10]
       @ concat (map (\<lambda>row. ascii ''| ''
                    @ join (ascii '' | '') (map (\<lambda>c. case c of None \<Rightarrow> [] | Some s \<Rightarrow> trim s) row)
                    @ ascii '' |'' @ [10]) rest)
       @ [10]" for headerRow rest
    by (simp add: tableReplacement_def dataRows_drop join_replicate_map Let_def rowLine_def
        cellText_fun)
  show "tableReplacement content [[Some [32, 65, 32], Some [66]], [Some [160, 49], None]] =
       [10,
        124, 32, 65, 32, 124, 32, 66, 32, 124, 10,
        124, 32, 45, 45, 45, 32, 124, 32, 45, 45, 45, 32, 124, 10,
        124, 32, 49, 32, 124, 32, 32, 124, 10,
        10]"
    by (simp add: g trim_def isWhiteSpace_def numeral_2_eq_2)
qed

subsection \<open>Field resolution\<close>








subsection \<open>Retrying\<close>

lemma nav_all_fail:
  "(\<And>k. goto k = Inl (e k)) \<Longrightarrow> 0 \<le> r \<Longrightarrow> r < m \<Longrightarrow>
   navigateLoop goto m r w =
     \<lparr> outcome = Inl (e (nat m - 1)), attempts = nat m, delays = w @ replicate (nat (m - r - 1)) 1000 \<rparr>"
proof (induction goto m r w rule: navigateLoop.induct)
  case (1 goto m r w)
  have g: "goto (nat r) = Inl (e (nat r))" by (rule "1.prems")
  show ?case
  proof (cases "r + 1 \<ge> m")
    case True
    with "1.prems" have "m = r + 1" by simp
    with "1.prems" g show ?thesis
      by (subst navigateLoop.simps) (simp add: nat_add_distrib)
  next
    case False
    have n: "nat (m - r - 1) = Suc (nat (m - (r + 1) - 1))" using False "1.prems" by simp
    have "navigateLoop goto m (r + 1) (w @ [1000]) =
       \<lparr> outcome = Inl (e (nat m - 1)), attempts = nat m,
         delays = (w @ [1000]) @ replicate (nat (m - (r + 1) - 1)) 1000 \<rparr>"
    proof (rule "1.IH"[OF _ g False])
      show "r < m" using False by simp
      show "\<And>k. goto k = Inl (e k)" by (rule "1.prems")
      show "0 \<le> r + 1" using "1.prems" by simp
      show "r + 1 < m" using False by simp
    qed
    then have "navigateLoop goto m (r + 1) (w @ [1000]) =
       \<lparr> outcome = Inl (e (nat m - 1)), attempts = nat m,
         delays = w @ replicate (nat (m - r - 1)) 1000 \<rparr>"
      by (simp only: n replicate_Suc append_assoc append_Cons append_Nil)
    with False "1.prems" g show ?thesis
      by (subst navigateLoop.simps) simp
  qed
qed

lemma nav_success:
  "0 \<le> r \<Longrightarrow> nat r \<le> k \<Longrightarrow> int k < m \<Longrightarrow> goto k = Inr () \<Longrightarrow>
   (\<And>j. j < k \<Longrightarrow> goto j = Inl (e j)) \<Longrightarrow>
   navigateLoop goto m r w =
     \<lparr> outcome = Inr (), attempts = k + 1, delays = w @ replicate (k - nat r) 1000 \<rparr>"
proof (induction goto m r w rule: navigateLoop.induct)
  case (1 goto m r w)
  show ?case
  proof (cases "nat r = k")
    case True
    with "1.prems" show ?thesis
      by (subst navigateLoop.simps) simp
  next
    case False
    with "1.prems" have lt: "nat r < k" by simp
    then have er: "goto (nat r) = Inl (e (nat r))" by (rule "1.prems")
    have nlast: "\<not> r + 1 \<ge> m" using lt "1.prems" by linarith
    have rm: "r < m" using nlast by simp
    have n: "k - nat r = Suc (k - nat (r + 1))" using lt "1.prems" by simp
    have "navigateLoop goto m (r + 1) (w @ [1000]) =
       \<lparr> outcome = Inr (), attempts = k + 1, delays = (w @ [1000]) @ replicate (k - nat (r + 1)) 1000 \<rparr>"
    proof (rule "1.IH"[OF rm er nlast])
      show "0 \<le> r + 1" using "1.prems" by simp
      show "nat (r + 1) \<le> k" using lt "1.prems" by simp
      show "int k < m" by fact
      show "goto k = Inr ()" by fact
      show "\<And>j. j < k \<Longrightarrow> goto j = Inl (e j)" by (rule "1.prems")
    qed
    then have "navigateLoop goto m (r + 1) (w @ [1000]) =
       \<lparr> outcome = Inr (), attempts = k + 1, delays = w @ replicate (k - nat r) 1000 \<rparr>"
      by (simp only: n replicate_Suc append_assoc append_Cons append_Nil)
    with er nlast rm show ?thesis
      by (subst navigateLoop.simps) simp
  qed
qed

lemma retry_all_fail:
  "(\<And>k. fn k = Inl (e k)) \<Longrightarrow> 0 \<le> a \<Longrightarrow> a \<le> orThree mr \<Longrightarrow>
   withRetryLoop fn mr a le w =
     \<lparr> outcome = Inl (e (nat (orThree mr))), attempts = nat (orThree mr) + 1,
       delays = w @ map (\<lambda>i. 2 ^ i * 1000) [nat a..<nat (orThree mr)] \<rparr>"
proof (induction fn mr a le w rule: withRetryLoop.induct)
  case (1 fn mr a le w)
  have g: "fn (nat a) = Inl (e (nat a))" by (rule "1.prems")
  show ?case
  proof (cases "a \<ge> orThree mr")
    case True
    with "1.prems" have "a = orThree mr" by simp
    with "1.prems" g show ?thesis
      by (subst withRetryLoop.simps) (simp add: throwLast_def)
  next
    case False
    then have lt: "a < orThree mr + 1" by simp
    have u: "[nat a..<nat (orThree mr)] = nat a # [nat (a + 1)..<nat (orThree mr)]"
      using False "1.prems" by (simp add: upt_conv_Cons nat_add_distrib)
    have "withRetryLoop fn mr (a + 1) (Some (e (nat a))) (w @ [2 ^ nat a * 1000]) =
       \<lparr> outcome = Inl (e (nat (orThree mr))), attempts = nat (orThree mr) + 1,
         delays = (w @ [2 ^ nat a * 1000]) @ map (\<lambda>i. 2 ^ i * 1000) [nat (a + 1)..<nat (orThree mr)] \<rparr>"
    proof (rule "1.IH"[OF lt g False])
      show "\<And>k. fn k = Inl (e k)" by (rule "1.prems")
      show "0 \<le> a + 1" using "1.prems" by simp
      show "a + 1 \<le> orThree mr" using False by simp
    qed
    then have "withRetryLoop fn mr (a + 1) (Some (e (nat a))) (w @ [2 ^ nat a * 1000]) =
       \<lparr> outcome = Inl (e (nat (orThree mr))), attempts = nat (orThree mr) + 1,
         delays = w @ map (\<lambda>i. 2 ^ i * 1000) [nat a..<nat (orThree mr)] \<rparr>"
      by (simp only: u list.map append_assoc append_Cons append_Nil)
    with False lt g show ?thesis
      by (subst withRetryLoop.simps) simp
  qed
qed

text \<open>
  Claim C3, as the code has it. Navigation does not go through \<open>withRetry\<close>: the scrapers
  call \<open>navigateToUrl\<close>, which has a loop of its own. With \<open>maxRetries \<ge> 1\<close> and an
  operation that fails every time, \<open>navigateToUrl\<close> calls it \<open>maxRetries\<close> times in
  all, waits 1000 ms between two calls and throws the error of the last call; it stops
  at the first call that succeeds. \<open>withRetry\<close>, which no scraper calls, calls a failing
  operation \<open>maxRetries + 1\<close> times, waits \<open>2 ^ attempt\<close> seconds after attempt
  number \<open>attempt\<close> and throws the error of the last call.
\<close>

theorem retry_failing_operation:
  assumes "1 \<le> m"
  shows "navigateToUrl (\<lambda>k. Inl (e k)) (Some m) =
           \<lparr> outcome = Inl (e (nat m - 1)), attempts = nat m,
             delays = replicate (nat m - 1) 1000 \<rparr>
       \<and> (int k < m \<and> goto k = Inr () \<and> (\<forall>j<k. goto j = Inl (e j)) \<longrightarrow>
            navigateToUrl goto (Some m) =
              \<lparr> outcome = Inr (), attempts = k + 1, delays = replicate k 1000 \<rparr>)
       \<and> withRetry (\<lambda>k. Inl (e k)) (Some m) =
           \<lparr> outcome = Inl (e (nat m)), attempts = nat m + 1,
             delays = map (\<lambda>i. 2 ^ i * 1000) [0..<nat m] \<rparr>"
proof (intro conjI impI)
  have "navigateLoop (\<lambda>k. Inl (e k)) m 0 [] =
      \<lparr> outcome = Inl (e (nat m - 1)), attempts = nat m,
        delays = [] @ replicate (nat (m - 0 - 1)) 1000 \<rparr>"
    by (rule nav_all_fail) (use assms in simp_all)
  moreover have "nat (m - 0 - 1) = nat m - 1" by simp
  ultimately show "navigateToUrl (\<lambda>k. Inl (e k)) (Some m) =
           \<lparr> outcome = Inl (e (nat m - 1)), attempts = nat m,
             delays = replicate (nat m - 1) 1000 \<rparr>"
    by (simp add: navigateToUrl_def)
next
  assume h: "int k < m \<and> goto k = Inr () \<and> (\<forall>j<k. goto j = Inl (e j))"
  have "navigateLoop goto m 0 [] =
      \<lparr> outcome = Inr (), attempts = k + 1, delays = [] @ replicate (k - nat 0) 1000 \<rparr>"
    by (rule nav_success) (use h in simp_all)
  then show "navigateToUrl goto (Some m) =
      \<lparr> outcome = Inr (), attempts = k + 1, delays = replicate k 1000 \<rparr>"
    by (simp add: navigateToUrl_def)
next
  have o: "orThree (Some m) = m" using assms by (simp add: orThree_def)
  have "withRetryLoop (\<lambda>k. Inl (e k)) (Some m) 0 None [] =
      \<lparr> outcome = Inl (e (nat (orThree (Some m)))), attempts = nat (orThree (Some m)) + 1,
        delays = [] @ map (\<lambda>i. 2 ^ i * 1000) [nat 0..<nat (orThree (Some m))] \<rparr>"
    by (rule retry_all_fail) (use assms o in simp_all)
  then show "withRetry (\<lambda>k. Inl (e k)) (Some m) =
           \<lparr> outcome = Inl (e (nat m)), attempts = nat m + 1,
             delays = map (\<lambda>i. 2 ^ i * 1000) [0..<nat m] \<rparr>"
    by (simp add: withRetry_def o)
qed

theorem retry_failing_operation_witness:
  "navigateToUrl (\<lambda>k. Inl ((\<lambda>k::nat. if k = 2 then ''attempt 3 failed'' else if k = 3 then ''attempt 4 failed'' else ''failed'') k)) (Some 3) =
     \<lparr> outcome = Inl ''attempt 3 failed'', attempts = 3, delays = [1000, 1000] \<rparr>
   \<and> navigateToUrl (\<lambda>k::nat. if k = 1 then Inr () else Inl ''failed'') (Some 3) =
     \<lparr> outcome = Inr (), attempts = 2, delays = [1000] \<rparr>
   \<and> withRetry (\<lambda>k. Inl ((\<lambda>k::nat. if k = 2 then ''attempt 3 failed'' else if k = 3 then ''attempt 4 failed'' else ''failed'') k) :: string + unit) (Some 3) =
     \<lparr> outcome = Inl ''attempt 4 failed'', attempts = 4, delays = [1000, 2000, 4000] \<rparr>"
proof -
  have m: "(1::int) \<le> 3" by simp
  have h: "int 1 < 3 \<and> ((\<lambda>k::nat. if k = 1 then Inr () else Inl ''failed'') 1) = Inr () \<and> (\<forall>j<1. (\<lambda>k::nat. if k = 1 then Inr () else Inl ''failed'') j = Inl ((\<lambda>k::nat. if k = 2 then ''attempt 3 failed'' else if k = 3 then ''attempt 4 failed'' else ''failed'') j))"
    by simp
  have l: "[0..<nat 3] = [0, 1, 2]" by (simp add: upt_rec)
  have r: "replicate (nat 3 - 1) (1000::int) = [1000, 1000]" by (simp add: numeral_3_eq_3)
  note T = retry_failing_operation [OF m, of "\<lambda>k::nat. if k = 2 then ''attempt 3 failed'' else if k = 3 then ''attempt 4 failed'' else ''failed''" 1 "\<lambda>k::nat. if k = 1 then Inr () else Inl ''failed''"]
  from T have a: "navigateToUrl (\<lambda>k. Inl ((\<lambda>k::nat. if k = 2 then ''attempt 3 failed'' else if k = 3 then ''attempt 4 failed'' else ''failed'') k)) (Some 3) =
      \<lparr> outcome = Inl ((\<lambda>k::nat. if k = 2 then ''attempt 3 failed'' else if k = 3 then ''attempt 4 failed'' else ''failed'') (nat 3 - 1)), attempts = nat 3, delays = replicate (nat 3 - 1) 1000 \<rparr>"
    by blast
  from T h have b: "navigateToUrl (\<lambda>k::nat. if k = 1 then Inr () else Inl ''failed'') (Some 3) =
      \<lparr> outcome = Inr (), attempts = 1 + 1, delays = replicate 1 1000 \<rparr>"
    by blast
  from T have c: "withRetry (\<lambda>k. Inl ((\<lambda>k::nat. if k = 2 then ''attempt 3 failed'' else if k = 3 then ''attempt 4 failed'' else ''failed'') k)) (Some 3) =
      \<lparr> outcome = Inl ((\<lambda>k::nat. if k = 2 then ''attempt 3 failed'' else if k = 3 then ''attempt 4 failed'' else ''failed'') (nat 3)) :: string + unit,
        attempts = nat 3 + 1, delays = map (\<lambda>i. 2 ^ i * 1000) [0..<nat 3] \<rparr>"
    by blast
  from a r have a': "navigateToUrl (\<lambda>k. Inl ((\<lambda>k::nat. if k = 2 then ''attempt 3 failed'' else if k = 3 then ''attempt 4 failed'' else ''failed'') k)) (Some 3) =
     \<lparr> outcome = Inl ''attempt 3 failed'', attempts = 3, delays = [1000, 1000] \<rparr>"
    by simp
  from b have b': "navigateToUrl (\<lambda>k::nat. if k = 1 then Inr () else Inl ''failed'') (Some 3) =
     \<lparr> outcome = Inr (), attempts = 2, delays = [1000] \<rparr>"
    by simp
  from c l have c': "withRetry (\<lambda>k. Inl ((\<lambda>k::nat. if k = 2 then ''attempt 3 failed'' else if k = 3 then ''attempt 4 failed'' else ''failed'') k) :: string + unit) (Some 3) =
     \<lparr> outcome = Inl ''attempt 4 failed'', attempts = 4, delays = [1000, 2000, 4000] \<rparr>"
    by simp
  from a' b' c' show ?thesis by blast
qed

text \<open>
  With \<open>maxRetries = 3\<close> and a navigation that fails every time, \<open>navigateToUrl\<close> makes
  three calls, not four, and waits one second twice, not 1, 2 and 4 seconds.
\<close>

theorem navigateToUrl_retry_counterexample:
  "attempts (navigateToUrl (\<lambda>k. Inl ''net::ERR_FAILED'') (Some 3)) = 3
   \<and> delays (navigateToUrl (\<lambda>k. Inl ''net::ERR_FAILED'') (Some 3)) = [1000, 1000]
   \<and> \<not> (attempts (navigateToUrl (\<lambda>k. Inl ''net::ERR_FAILED'') (Some 3)) = 3 + 1
        \<and> delays (navigateToUrl (\<lambda>k. Inl ''net::ERR_FAILED'') (Some 3)) = [1000, 2000, 4000])"
  by (simp add: navigateToUrl_def navigateLoop.simps)

subsection \<open>The rate limiter on the repository's store\<close>

lemmas rate_limit_eval =
  checkAndIncrementRateLimit_def checkRateLimit_def incrementRateLimit_def MockKV_def
  mock_get_def mock_set_def ceil_div1000_def Let_def expired_def rateLimitKey_def
  storedValue_def

text \<open>
  Claim C1, on the code. With \<open>maxRequests = 3\<close> and \<open>windowMs = 60000\<close>, four calls
  in one window from an empty store: the third call, which raises the count to 3, already
  reports \<open>limited\<close> (its \<open>remaining\<close> is 0, and \<open>limited\<close> is \<open>remaining <= 0\<close>), so
  the outcomes are allowed, allowed, rejected, rejected, and the stored count stays 3. A
  fifth call after the reset time is allowed, with the count back to 1.
\<close>

theorem admissions_max3_third_rejected:
  "map limited (fst (admissions MockKV domain 3 60000
       [(1000, 1000), (2000, 2000), (3000, 3000), (4000, 4000)] Map.empty))
     = [False, False, True, True]
   \<and> map current (fst (admissions MockKV domain 3 60000
       [(1000, 1000), (2000, 2000), (3000, 3000), (4000, 4000)] Map.empty))
     = [1, 2, 3, 3]
   \<and> storedValue (snd (admissions MockKV domain 3 60000
       [(1000, 1000), (2000, 2000), (3000, 3000), (4000, 4000)] Map.empty)) (rateLimitKey domain)
     = Some \<lparr> count = 3, reset = 61000 \<rparr>
   \<and> map limited (fst (admissions MockKV domain 3 60000
       [(1000, 1000), (2000, 2000), (3000, 3000), (4000, 4000), (61001, 61001)] Map.empty))
     = [False, False, True, True, False]
   \<and> storedValue (snd (admissions MockKV domain 3 60000
       [(1000, 1000), (2000, 2000), (3000, 3000), (4000, 4000), (61001, 61001)] Map.empty))
       (rateLimitKey domain)
     = Some \<lparr> count = 1, reset = 121001 \<rparr>"
  by (simp add: rate_limit_eval)

lemma ceil_div1000_ge: "a \<le> ceil_div1000 a * 1000"
  unfolding ceil_div1000_def by linarith

lemma not_expired_simps:
  "\<not> expired None t"
  "\<not> expired (Some (now + ceil_div1000 (r - now) * 1000)) r"
  "\<not> expired (Some (now + ceil_div1000 w * 1000)) (now + w)"
  using ceil_div1000_ge [of "r - now"] ceil_div1000_ge [of w] by (simp_all add: expired_def)

lemma expired_mono: "\<not> expired e r \<Longrightarrow> t \<le> r \<Longrightarrow> \<not> expired e t"
  by (auto simp: expired_def split: option.splits)

lemma check_mock_limited:
  assumes "limited (fst (checkRateLimit MockKV now domain M W s))"
  shows "snd (checkRateLimit MockKV now domain M W s) = s
       \<and> (case s (rateLimitKey domain) of
            Some (Some d, e) \<Rightarrow> M \<le> count d \<and> \<not> expired e now \<and> now \<le> reset d
          | _ \<Rightarrow> False)"
  using assms
  by (auto simp: checkRateLimit_def MockKV_def mock_get_def Let_def
      split: option.splits if_splits prod.splits)

lemma inc_mock_limited:
  assumes "limited (fst (incrementRateLimit MockKV now domain M W s))"
  shows "case snd (incrementRateLimit MockKV now domain M W s) (rateLimitKey domain) of
            Some (Some d, e) \<Rightarrow> M \<le> count d \<and> \<not> expired e (reset d)
          | _ \<Rightarrow> False"
  using assms
  by (auto simp: incrementRateLimit_def MockKV_def mock_get_def mock_set_def Let_def
      not_expired_simps split: option.splits if_splits prod.splits)

lemma check_mock_inv:
  "windowInv M s (rateLimitKey domain) \<Longrightarrow>
   windowInv M (snd (checkRateLimit MockKV now domain M W s)) (rateLimitKey domain)"
  by (auto simp: checkRateLimit_def MockKV_def mock_get_def Let_def windowInv_def
      split: option.splits if_splits prod.splits)

lemma check_mock_not_limited:
  assumes "\<not> limited (fst (checkRateLimit MockKV now domain M W s))"
  shows "case snd (checkRateLimit MockKV now domain M W s) (rateLimitKey domain) of
            Some (Some d, e) \<Rightarrow> reset d < now \<or> count d < M
          | _ \<Rightarrow> True"
  using assms
  by (auto simp: checkRateLimit_def MockKV_def mock_get_def Let_def
      split: option.splits if_splits prod.splits)

lemma inc_mock_inv:
  assumes "1 \<le> M" and "windowInv M s (rateLimitKey domain)"
    and "case s (rateLimitKey domain) of
            Some (Some d, e) \<Rightarrow> reset d < now \<or> count d < M
          | _ \<Rightarrow> True"
  shows "windowInv M (snd (incrementRateLimit MockKV now domain M W s)) (rateLimitKey domain)"
  using assms
  by (auto simp: incrementRateLimit_def MockKV_def mock_get_def mock_set_def Let_def windowInv_def
      not_expired_simps split: option.splits if_splits prod.splits)

lemma step_inv:
  assumes "1 \<le> M" and "now1 \<le> now2" and "windowInv M s (rateLimitKey domain)"
  shows "windowInv M (snd (checkAndIncrementRateLimit MockKV now1 now2 domain M W s))
           (rateLimitKey domain)"
proof (cases "limited (fst (checkRateLimit MockKV now1 domain M W s))")
  case True
  then have "checkAndIncrementRateLimit MockKV now1 now2 domain M W s
      = checkRateLimit MockKV now1 domain M W s"
    by (simp add: checkAndIncrementRateLimit_def split_beta)
  with assms(3) show ?thesis
    by (simp add: check_mock_inv)
next
  case False
  let ?s1 = "snd (checkRateLimit MockKV now1 domain M W s)"
  from False have c: "checkAndIncrementRateLimit MockKV now1 now2 domain M W s
      = incrementRateLimit MockKV now2 domain M W ?s1"
    by (simp add: checkAndIncrementRateLimit_def split_beta)
  have i: "windowInv M ?s1 (rateLimitKey domain)"
    using assms(3) by (rule check_mock_inv)
  have "case ?s1 (rateLimitKey domain) of
            Some (Some d, e) \<Rightarrow> reset d < now1 \<or> count d < M
          | _ \<Rightarrow> True"
    using False by (rule check_mock_not_limited)
  with assms(2) have "case ?s1 (rateLimitKey domain) of
            Some (Some d, e) \<Rightarrow> reset d < now2 \<or> count d < M
          | _ \<Rightarrow> True"
    by (auto split: option.splits)
  with assms(1) i show ?thesis
    unfolding c by (rule inc_mock_inv)
qed

lemma limited_stored:
  assumes "windowInv M s (rateLimitKey domain)"
    and "limited (fst (checkAndIncrementRateLimit MockKV now1 now2 domain M W s))"
  shows "case snd (checkAndIncrementRateLimit MockKV now1 now2 domain M W s) (rateLimitKey domain) of
            Some (Some d, e) \<Rightarrow> M \<le> count d \<and> \<not> expired e (reset d)
          | _ \<Rightarrow> False"
proof (cases "limited (fst (checkRateLimit MockKV now1 domain M W s))")
  case True
  then have c: "checkAndIncrementRateLimit MockKV now1 now2 domain M W s
      = checkRateLimit MockKV now1 domain M W s"
    by (simp add: checkAndIncrementRateLimit_def split_beta)
  from check_mock_limited [OF True] assms(1) show ?thesis
    unfolding c by (auto simp: windowInv_def split: option.splits)
next
  case False
  then have c: "checkAndIncrementRateLimit MockKV now1 now2 domain M W s
      = incrementRateLimit MockKV now2 domain M W (snd (checkRateLimit MockKV now1 domain M W s))"
    by (simp add: checkAndIncrementRateLimit_def split_beta)
  from assms(2) show ?thesis
    unfolding c by (rule inc_mock_limited)
qed

lemma in_window_limited:
  assumes "s (rateLimitKey domain) = Some (Some d, e)"
    and "M \<le> count d" and "\<not> expired e (reset d)" and "t1 \<le> reset d"
  shows "limited (fst (checkAndIncrementRateLimit MockKV t1 t2 domain M W s))
     \<and> snd (checkAndIncrementRateLimit MockKV t1 t2 domain M W s) = s"
proof -
  from assms(3,4) have "\<not> expired e t1" by (rule expired_mono)
  with assms show ?thesis
    by (simp add: checkAndIncrementRateLimit_def checkRateLimit_def MockKV_def mock_get_def Let_def)
qed

lemma admissions_inv:
  "1 \<le> M \<Longrightarrow> \<forall>(now1, now2) \<in> set calls. now1 \<le> now2 \<Longrightarrow>
   windowInv M s (rateLimitKey domain) \<Longrightarrow>
   windowInv M (snd (admissions MockKV domain M W calls s)) (rateLimitKey domain)"
proof (induction calls arbitrary: s)
  case Nil
  then show ?case by simp
next
  case (Cons c calls)
  obtain now1 now2 where c: "c = (now1, now2)" by (cases c)
  with Cons.prems have le: "now1 \<le> now2" by simp
  have "windowInv M (snd (checkAndIncrementRateLimit MockKV now1 now2 domain M W s))
          (rateLimitKey domain)"
    using Cons.prems(1) le Cons.prems(3) by (rule step_inv)
  then have "windowInv M (snd (admissions MockKV domain M W calls
       (snd (checkAndIncrementRateLimit MockKV now1 now2 domain M W s)))) (rateLimitKey domain)"
    using Cons.prems by (intro Cons.IH) simp_all
  then show ?case
    by (simp add: c split_beta)
qed

text \<open>
  Claim C9, for \<open>maxRequests \<ge> 1\<close>, on a store whose reads and writes do not fail (the
  repository's \<open>MockKV\<close>, whose items expire with their TTL), with a clock that does not
  go back between the check and the increment of a call. Take such a store with no record
  for the domain, any sequence of calls of \<open>checkAndIncrementRateLimit\<close> for the domain,
  one after the other, and one more call. After it, the count stored for the domain is at
  most \<open>maxRequests\<close>. If it reports \<open>limited\<close>, there is a stored record, and every
  call made no later than that record's reset time reports \<open>limited\<close> and leaves the
  store as it is.
\<close>

theorem rate_limit_window_invariant:
  assumes "1 \<le> maxRequests"
    and "\<forall>(t, t') \<in> set earlier. t \<le> t'"
    and "now1 \<le> now2"
    and "s0 (rateLimitKey domain) = None"
  shows "let s = snd (admissions MockKV domain maxRequests windowMs earlier s0);
             r = checkAndIncrementRateLimit MockKV now1 now2 domain maxRequests windowMs s
         in (\<forall>d. storedValue (snd r) (rateLimitKey domain) = Some d \<longrightarrow> count d \<le> maxRequests)
          \<and> (limited (fst r) \<longrightarrow>
               (\<exists>d. storedValue (snd r) (rateLimitKey domain) = Some d
                  \<and> (\<forall>t1 t2. t1 \<le> reset d \<longrightarrow>
                        limited (fst (checkAndIncrementRateLimit MockKV t1 t2 domain
                                        maxRequests windowMs (snd r)))
                      \<and> snd (checkAndIncrementRateLimit MockKV t1 t2 domain
                                        maxRequests windowMs (snd r)) = snd r)))"
proof -
  define s where "s = snd (admissions MockKV domain maxRequests windowMs earlier s0)"
  define r where "r = checkAndIncrementRateLimit MockKV now1 now2 domain maxRequests windowMs s"
  have "windowInv maxRequests s0 (rateLimitKey domain)"
    using assms(4) by (simp add: windowInv_def)
  with assms(1,2) have inv: "windowInv maxRequests s (rateLimitKey domain)"
    unfolding s_def by (rule admissions_inv)
  with assms(1,3) have inv': "windowInv maxRequests (snd r) (rateLimitKey domain)"
    unfolding r_def by (rule step_inv)
  have bound: "\<forall>d. storedValue (snd r) (rateLimitKey domain) = Some d \<longrightarrow> count d \<le> maxRequests"
    using inv' by (auto simp: windowInv_def storedValue_def split: option.splits)
  have frozen: "\<exists>d. storedValue (snd r) (rateLimitKey domain) = Some d
                  \<and> (\<forall>t1 t2. t1 \<le> reset d \<longrightarrow>
                        limited (fst (checkAndIncrementRateLimit MockKV t1 t2 domain
                                        maxRequests windowMs (snd r)))
                      \<and> snd (checkAndIncrementRateLimit MockKV t1 t2 domain
                                        maxRequests windowMs (snd r)) = snd r)"
    if lim: "limited (fst r)"
  proof -
    from limited_stored [OF inv, of now1 now2 windowMs] lim
    obtain d e where st: "snd r (rateLimitKey domain) = Some (Some d, e)"
      and full: "maxRequests \<le> count d" and live: "\<not> expired e (reset d)"
      unfolding r_def by (auto split: option.splits)
    have "storedValue (snd r) (rateLimitKey domain) = Some d"
      using st by (simp add: storedValue_def)
    moreover have "\<forall>t1 t2. t1 \<le> reset d \<longrightarrow>
                        limited (fst (checkAndIncrementRateLimit MockKV t1 t2 domain
                                        maxRequests windowMs (snd r)))
                      \<and> snd (checkAndIncrementRateLimit MockKV t1 t2 domain
                                        maxRequests windowMs (snd r)) = snd r"
      using in_window_limited [of "snd r" domain d e maxRequests _ _ windowMs] st full live
      by blast
    ultimately show ?thesis by blast
  qed
  from bound frozen show ?thesis
    unfolding Let_def s_def [symmetric] r_def [symmetric] by blast
qed

theorem rate_limit_window_invariant_witness:
  "limited (fst (checkAndIncrementRateLimit MockKV 3000 3000 ''example.com'' 3 60000
       (snd (admissions MockKV ''example.com'' 3 60000 [(1000, 1000), (2000, 2500)] Map.empty))))
   \<and> (let s = snd (admissions MockKV ''example.com'' 3 60000 [(1000, 1000), (2000, 2500)] Map.empty);
         r = checkAndIncrementRateLimit MockKV 3000 3000 ''example.com'' 3 60000 s
     in (\<forall>d. storedValue (snd r) (rateLimitKey ''example.com'') = Some d \<longrightarrow> count d \<le> 3)
      \<and> (limited (fst r) \<longrightarrow>
           (\<exists>d. storedValue (snd r) (rateLimitKey ''example.com'') = Some d
              \<and> (\<forall>t1 t2. t1 \<le> reset d \<longrightarrow>
                    limited (fst (checkAndIncrementRateLimit MockKV t1 t2 ''example.com''
                                    3 60000 (snd r)))
                  \<and> snd (checkAndIncrementRateLimit MockKV t1 t2 ''example.com''
                                    3 60000 (snd r)) = snd r))))"
proof -
  have h1: "(1::int) \<le> 3" by simp
  have h2: "\<forall>(t, t') \<in> set [(1000::int, 1000::int), (2000, 2500)]. t \<le> t'" by simp
  have h3: "(3000::int) \<le> 3000" by simp
  have h4: "(Map.empty :: RateLimitData mock_store) (rateLimitKey ''example.com'') = None" by simp
  have l: "limited (fst (checkAndIncrementRateLimit MockKV 3000 3000 ''example.com'' 3 60000
       (snd (admissions MockKV ''example.com'' 3 60000 [(1000, 1000), (2000, 2500)] Map.empty))))"
    by (simp add: rate_limit_eval)
  from l rate_limit_window_invariant [OF h1 h2 h3 h4, where windowMs = 60000] show ?thesis
    by (rule conjI)
qed

text \<open>
  With \<open>maxRequests = 0\<close> the first call of a window still creates a record with count 1.
  With \<open>maxRequests = 3\<close> and a store whose read throws once, at the check of the fourth
  call: the third call has reported \<open>limited\<close> with a stored count of 3, the check of the
  fourth call is caught and gives not limited, and its increment writes the count 4.
\<close>

theorem rate_limit_count_counterexample:
  "storedValue (snd (checkAndIncrementRateLimit MockKV 1000 1000 ''example.com'' 0 60000 Map.empty))
      (rateLimitKey ''example.com'') = Some \<lparr> count = 1, reset = 61000 \<rparr>
   \<and> \<not> count \<lparr> count = 1, reset = 61000 \<rparr> \<le> (0::int)
   \<and> map limited (fst (admissions (flakyKV 4000) ''example.com'' 3 60000
        [(1000, 1000), (2000, 2000), (3000, 3000)] Map.empty)) = [False, False, True]
   \<and> storedValue (snd (admissions (flakyKV 4000) ''example.com'' 3 60000
        [(1000, 1000), (2000, 2000), (3000, 3000)] Map.empty)) (rateLimitKey ''example.com'')
      = Some \<lparr> count = 3, reset = 61000 \<rparr>
   \<and> storedValue (snd (admissions (flakyKV 4000) ''example.com'' 3 60000
        [(1000, 1000), (2000, 2000), (3000, 3000), (4000, 4001)] Map.empty))
        (rateLimitKey ''example.com'')
      = Some \<lparr> count = 4, reset = 61000 \<rparr>
   \<and> \<not> count \<lparr> count = 4, reset = 61000 \<rparr> \<le> (3::int)"
  by (simp add: rate_limit_eval flakyKV_def)

subsection \<open>Store failures\<close>

text \<open>
  Claim C8. Whatever the store is: if its \<open>get\<close> throws, \<open>getCachedValue\<close> gives
  \<open>null\<close>; if its \<open>set\<close> throws, \<open>setCachedValue\<close> gives \<open>false\<close>, and
  \<open>getOrSetCachedValue\<close>, after a miss, still returns the value the factory produced;
  if its \<open>get\<close> throws in \<open>checkRateLimit\<close>, the result is not limited, and so is the
  result of \<open>checkAndIncrementRateLimit\<close> when the \<open>get\<close> of its increment throws as
  well. No error of the store reaches the caller.
\<close>

theorem store_failures_recovered:
  "(kv_get kv1 now key s1 = Inl err \<longrightarrow> getCachedValue kv1 now key s1 = (None, s1))
   \<and> (kv_set kv2 now key val (case ttl of None \<Rightarrow> DEFAULT_CACHE_TTL | Some t \<Rightarrow> t) s2 = Inl err \<longrightarrow>
        setCachedValue kv2 now key val ttl s2 = (False, s2))
   \<and> (kv_get kv3 now1 key s3 = Inr (None, s3') \<and> factory calls = Inr val
        \<and> kv_set kv3 now2 key val (case ttl of None \<Rightarrow> DEFAULT_CACHE_TTL | Some t \<Rightarrow> t) s3' = Inl err \<longrightarrow>
        getOrSetCachedValue kv3 now1 now2 key factory ttl (s3, calls) = (Inr val, s3', calls + 1))
   \<and> (kv_get kv4 now (rateLimitKey domain) s4 = Inl err \<longrightarrow>
        \<not> limited (fst (checkRateLimit kv4 now domain maxRequests windowMs s4))
        \<and> snd (checkRateLimit kv4 now domain maxRequests windowMs s4) = s4)
   \<and> (kv_get kv5 now1 (rateLimitKey domain) s5 = Inl err
        \<and> kv_get kv5 now2 (rateLimitKey domain) s5 = Inl err' \<longrightarrow>
        \<not> limited (fst (checkAndIncrementRateLimit kv5 now1 now2 domain maxRequests windowMs s5)))"
  by (simp add: getCachedValue_def setCachedValue_def getOrSetCachedValue_def checkRateLimit_def
      checkAndIncrementRateLimit_def incrementRateLimit_def Let_def)

theorem store_failures_recovered_witness:
  "getCachedValue (downKV :: (unit, string) kv_client) 1000 ''k'' () = (None, ())
   \<and> setCachedValue (downKV :: (unit, string) kv_client) 1000 ''k'' (Some ''v'') (Some 60) ()
       = (False, ())
   \<and> getOrSetCachedValue (readOnlyKV :: (unit, string) kv_client) 1000 2000 ''k''
         (\<lambda>k. Inr (Some ''v'')) (Some 60) ((), 0) = (Inr (Some ''v''), (), 1)
   \<and> \<not> limited (fst (checkRateLimit downKV 1000 ''example.com'' 3 60000 ()))
   \<and> \<not> limited (fst (checkAndIncrementRateLimit downKV 1000 2000 ''example.com'' 3 60000 ()))"
proof -
  have g: "kv_get (downKV :: (unit, string) kv_client) 1000 ''k'' () = Inl ''ECONNREFUSED''"
    by (simp add: downKV_def)
  have w: "kv_set (downKV :: (unit, string) kv_client) 1000 ''k'' (Some ''v'')
             (case Some 60 of None \<Rightarrow> DEFAULT_CACHE_TTL | Some t \<Rightarrow> t) () = Inl ''ECONNREFUSED''"
    by (simp add: downKV_def)
  have m: "kv_get (readOnlyKV :: (unit, string) kv_client) 1000 ''k'' () = Inr (None, ())
      \<and> (\<lambda>k::nat. Inr (Some ''v'') :: string + string option) 0 = Inr (Some ''v'')
      \<and> kv_set (readOnlyKV :: (unit, string) kv_client) 2000 ''k'' (Some ''v'')
             (case Some 60 of None \<Rightarrow> DEFAULT_CACHE_TTL | Some t \<Rightarrow> t) () = Inl ''READONLY''"
    by (simp add: readOnlyKV_def)
  have r1: "kv_get (downKV :: (unit, RateLimitData) kv_client) 1000 (rateLimitKey ''example.com'') ()
      = Inl ''ECONNREFUSED''"
    by (simp add: downKV_def)
  have r2: "kv_get (downKV :: (unit, RateLimitData) kv_client) 1000 (rateLimitKey ''example.com'') ()
      = Inl ''ECONNREFUSED''
      \<and> kv_get (downKV :: (unit, RateLimitData) kv_client) 2000 (rateLimitKey ''example.com'') ()
      = Inl ''ECONNREFUSED''"
    by (simp add: downKV_def)
  have a: "getCachedValue (downKV :: (unit, string) kv_client) 1000 ''k'' () = (None, ())"
    using g by (rule store_failures_recovered [THEN conjunct1, THEN mp])
  have b: "setCachedValue (downKV :: (unit, string) kv_client) 1000 ''k'' (Some ''v'')
      (Some 60) () = (False, ())"
    using w by (rule store_failures_recovered [THEN conjunct2, THEN conjunct1, THEN mp])
  have c: "getOrSetCachedValue (readOnlyKV :: (unit, string) kv_client) 1000 2000 ''k''
         (\<lambda>k. Inr (Some ''v'')) (Some 60) ((), 0) = (Inr (Some ''v''), (), 0 + 1)"
    using m
    by (rule store_failures_recovered [THEN conjunct2, THEN conjunct2, THEN conjunct1, THEN mp])
  have d: "\<not> limited (fst (checkRateLimit downKV 1000 ''example.com'' 3 60000 ()))
      \<and> snd (checkRateLimit downKV 1000 ''example.com'' 3 60000 ()) = ()"
    using r1
    by (rule store_failures_recovered [THEN conjunct2, THEN conjunct2, THEN conjunct2,
          THEN conjunct1, THEN mp])
  have e: "\<not> limited (fst (checkAndIncrementRateLimit downKV 1000 2000 ''example.com''
      3 60000 ()))"
    using r2
    by (rule store_failures_recovered [THEN conjunct2, THEN conjunct2, THEN conjunct2,
          THEN conjunct2, THEN mp])
  from a b c d e show ?thesis by simp
qed

subsection \<open>A factory that gives null\<close>

lemma getOrSet_null:
  assumes "storedValue s key = None" and "factory calls = Inr None"
  shows "getOrSetCachedValue MockKV now1 now2 key factory ttl (s, calls) =
           (Inr None,
            s(key \<mapsto> (None, if (case ttl of None \<Rightarrow> DEFAULT_CACHE_TTL | Some t \<Rightarrow> t) \<noteq> 0
                             then Some (now2 + (case ttl of None \<Rightarrow> DEFAULT_CACHE_TTL | Some t \<Rightarrow> t) * 1000)
                             else None)),
            calls + 1)"
  using assms
  by (auto simp: getOrSetCachedValue_def getCachedValue_def setCachedValue_def MockKV_def
      mock_get_def mock_set_def storedValue_def Let_def split: option.splits)

lemma getOrSetCalls_null:
  assumes "\<forall>k. factory k = Inr None"
  shows "storedValue s key = None \<Longrightarrow>
         snd (getOrSetCalls MockKV key factory ttl calls (s, n)) = n + length calls
         \<and> storedValue (fst (getOrSetCalls MockKV key factory ttl calls (s, n))) key = None"
proof (induction calls arbitrary: s n)
  case Nil
  then show ?case by simp
next
  case (Cons c calls)
  obtain now1 now2 where c: "c = (now1, now2)" by (cases c)
  from assms have f: "factory n = Inr None" by simp
  define s' where "s' = s(key \<mapsto> (None :: 'a option,
      if (case ttl of None \<Rightarrow> DEFAULT_CACHE_TTL | Some t \<Rightarrow> t) \<noteq> 0
      then Some (now2 + (case ttl of None \<Rightarrow> DEFAULT_CACHE_TTL | Some t \<Rightarrow> t) * 1000)
      else None))"
  have step: "getOrSetCachedValue MockKV now1 now2 key factory ttl (s, n) = (Inr None, s', n + 1)"
    unfolding s'_def using Cons.prems f by (rule getOrSet_null)
  have "storedValue s' key = None"
    by (simp add: s'_def storedValue_def)
  then have "snd (getOrSetCalls MockKV key factory ttl calls (s', n + 1)) = n + 1 + length calls
         \<and> storedValue (fst (getOrSetCalls MockKV key factory ttl calls (s', n + 1))) key = None"
    by (rule Cons.IH)
  then show ?case
    by (simp add: c step)
qed

text \<open>
  Claim C10. Let the factory give \<open>null\<close> at every call, and let the store hold no
  value other than \<open>null\<close> for the key. Then a call of \<open>getOrSetCachedValue\<close> calls
  the factory, returns \<open>null\<close> and writes \<open>null\<close> for the key, with the expiry of the
  TTL; and after any sequence of calls, the factory has been called once for each of them:
  the stored \<open>null\<close> is read back as a miss every time.
\<close>

theorem null_result_never_served:
  assumes "\<forall>k. factory k = Inr None" and "storedValue s key = None"
  shows "snd (getOrSetCalls MockKV key factory ttl calls (s, n)) = n + length calls
       \<and> getOrSetCachedValue MockKV now1 now2 key factory ttl (s, n) =
           (Inr None,
            s(key \<mapsto> (None, if (case ttl of None \<Rightarrow> DEFAULT_CACHE_TTL | Some t \<Rightarrow> t) \<noteq> 0
                             then Some (now2 + (case ttl of None \<Rightarrow> DEFAULT_CACHE_TTL | Some t \<Rightarrow> t) * 1000)
                             else None)),
            n + 1)"
proof
  show "snd (getOrSetCalls MockKV key factory ttl calls (s, n)) = n + length calls"
    using getOrSetCalls_null [OF assms(1) assms(2)] by blast
  from assms(1) have "factory n = Inr None" by simp
  with assms(2) show "getOrSetCachedValue MockKV now1 now2 key factory ttl (s, n) =
           (Inr None,
            s(key \<mapsto> (None, if (case ttl of None \<Rightarrow> DEFAULT_CACHE_TTL | Some t \<Rightarrow> t) \<noteq> 0
                             then Some (now2 + (case ttl of None \<Rightarrow> DEFAULT_CACHE_TTL | Some t \<Rightarrow> t) * 1000)
                             else None)),
            n + 1)"
    by (rule getOrSet_null)
qed

theorem null_result_never_served_witness:
  "snd (getOrSetCalls MockKV ''k'' (\<lambda>k. Inr (None :: string option)) (Some 60)
         [(1000, 1500), (2000, 2500), (3000, 3500)] (Map.empty, 0)) = 3
   \<and> getOrSetCachedValue MockKV 1000 1500 ''k'' (\<lambda>k. Inr (None :: string option)) (Some 60)
         (Map.empty, 0) = (Inr None, [''k'' \<mapsto> (None, Some 61500)], 1)"
proof -
  have h1: "\<forall>k::nat. (\<lambda>k. Inr None :: string + string option) k = Inr None" by simp
  have h2: "storedValue (Map.empty :: string mock_store) ''k'' = None"
    by (simp add: storedValue_def)
  have len: "0 + length [(1000::int, 1500::int), (2000, 2500), (3000, 3500)] = 3" by simp
  have ex: "(if (case Some 60 of None \<Rightarrow> DEFAULT_CACHE_TTL | Some t \<Rightarrow> t) \<noteq> 0
             then Some (1500 + (case Some 60 of None \<Rightarrow> DEFAULT_CACHE_TTL | Some t \<Rightarrow> t) * 1000)
             else None) = Some (61500::int)"
    by simp
  have one: "(0::nat) + 1 = 1" by simp
  note T = null_result_never_served [OF h1 h2, of "Some 60"
      "[(1000, 1500), (2000, 2500), (3000, 3500)]" 0 1000 1500]
  from T have a: "snd (getOrSetCalls MockKV ''k'' (\<lambda>k. Inr (None :: string option)) (Some 60)
         [(1000, 1500), (2000, 2500), (3000, 3500)] (Map.empty, 0)) = 3"
    unfolding len by (rule conjunct1)
  from T have b: "getOrSetCachedValue MockKV 1000 1500 ''k'' (\<lambda>k. Inr (None :: string option))
         (Some 60) (Map.empty, 0) = (Inr None, [''k'' \<mapsto> (None, Some 61500)], 1)"
    unfolding ex one by (rule conjunct2)
  from a b show ?thesis by (rule conjI)
qed

subsection \<open>The cache key\<close>

text \<open>
  Claim C2, as the code has it. The key does not depend on the order in which the
  properties of the parameter object were inserted: two lists of properties with distinct
  keys and the same elements give the same key, for every URL and namespace.
\<close>

theorem generateCacheKey_order_independent:
  assumes "distinct (map fst ps)" and "distinct (map fst qs)" and "set ps = set qs"
  shows "generateCacheKey url ps ns = generateCacheKey url qs ns"
proof -
  have "map_of ps = map_of qs"
    using assms by (simp add: map_of_inject_set)
  then have v: "paramValue ps = paramValue qs"
    by (simp add: paramValue_def fun_eq_iff)
  have "set (map fst ps) = set (map fst qs)"
    using assms(3) by simp
  then have "sort (map fst ps) = sort (map fst qs)"
    using assms(1,2) by (intro sorted_distinct_set_unique) simp_all
  with v show ?thesis
    by (simp add: generateCacheKey_def)
qed

theorem generateCacheKey_order_independent_witness:
  "generateCacheKey ''https://example.com/'' [(''a'', JNum 1), (''b'', JNum 2)] ''scrape''
     = generateCacheKey ''https://example.com/'' [(''b'', JNum 2), (''a'', JNum 1)] ''scrape''"
proof -
  have h1: "distinct (map fst [(''a'', JNum 1), (''b'', JNum 2)])" by simp
  have h2: "distinct (map fst [(''b'', JNum 2), (''a'', JNum 1)])" by simp
  have h3: "set [(''a'', JNum 1), (''b'', JNum 2)] = set [(''b'', JNum 2), (''a'', JNum 1)]"
    by auto
  from h1 h2 h3 show ?thesis
    by (rule generateCacheKey_order_independent)
qed

text \<open>
  The key does not separate its inputs: \<open>+\<close>, \<open>/\<close> and the padding \<open>=\<close> all become
  \<open>_\<close>. The URLs \<open>http://a.io/x\<close> and \<open>http://a.io/x?\<close>, with the same (empty)
  parameters and the same namespace, have the same key.
\<close>

theorem generateCacheKey_collision_counterexample:
  "''http://a.io/x'' \<noteq> ''http://a.io/x?''
   \<and> generateCacheKey ''http://a.io/x'' [] ''scrape''
       = generateCacheKey ''http://a.io/x?'' [] ''scrape''"
  by (simp add: generateCacheKey_def urlSafe_def base64Alphabet_def)

end
